theory Spec2Isabelle
  imports
    Main
    "HOL-Library.Sublist"
    "HOL-Library.Multiset"
    "HOL-Library.Char_ord"
    "HOL-Library.List_Lexorder"
begin

section \<open>Platform functions used by the script\<close>

text \<open>
  The browser script relies on a handful of ECMAScript built-ins.  They are modelled
  here on ASCII strings (\<^typ>\<open>string\<close> is a list of 8-bit characters): letters
  outside \<open>A\<close>-\<open>Z\<close> are left alone by \<open>toLowerCase\<close>, and strings are compared
  character code by character code, as \<open>a < b\<close> does on two JavaScript strings.
\<close>

definition toLowerCase_char :: "char \<Rightarrow> char" where
  "toLowerCase_char c =
     (if (65::nat) \<le> of_char c \<and> of_char c \<le> (90::nat)
      then char_of (of_char c + (32::nat)) else c)"

definition toLowerCase :: "string \<Rightarrow> string" where
  "toLowerCase s = map toLowerCase_char s"

text \<open>\<open>s.includes(t)\<close>: \<open>t\<close> occurs in \<open>s\<close> at some position.\<close>

fun includes_str :: "string \<Rightarrow> string \<Rightarrow> bool" where
  "includes_str [] t = (t = [])"
| "includes_str (c # cs) t = (prefix t (c # cs) \<or> includes_str cs t)"

text \<open>
  \<open>String(n)\<close> for a non-negative integer \<open>n\<close> (decimal digits, no leading zero;
  exact below \<open>10^21\<close>, where JavaScript switches to exponent notation).
\<close>

definition digit_char :: "nat \<Rightarrow> char" where
  "digit_char d = char_of (48 + d)"

fun String_nat :: "nat \<Rightarrow> string" where
  "String_nat n =
     (if n < 10 then [digit_char n] else String_nat (n div 10) @ [digit_char (n mod 10)])"

declare String_nat.simps [simp del]

text \<open>
  \<open>parseInt(s)\<close> without a radix: leading white space is skipped, a sign is read, a
  \<open>0x\<close>/\<open>0X\<close> prefix selects base 16, and the longest run of digits is converted.
  \<open>None\<close> stands for \<open>NaN\<close> (no digit found).
\<close>

definition is_white_space :: "char \<Rightarrow> bool" where
  "is_white_space c \<longleftrightarrow> of_char c \<in> {9, 10, 11, 12, 13, 32 :: nat}"

definition digit_value :: "char \<Rightarrow> nat option" where
  "digit_value c =
     (let n = (of_char c :: nat) in
      if 48 \<le> n \<and> n \<le> 57 then Some (n - 48)
      else if 97 \<le> n \<and> n \<le> 102 then Some (n - 87)
      else if 65 \<le> n \<and> n \<le> 70 then Some (n - 55)
      else None)"

text \<open>The characters \<open>0\<close> to \<open>9\<close>.\<close>

definition is_decimal :: "char \<Rightarrow> bool" where
  "is_decimal c \<longleftrightarrow> (48::nat) \<le> of_char c \<and> of_char c \<le> (57::nat)"

definition is_digit_in :: "nat \<Rightarrow> char \<Rightarrow> bool" where
  "is_digit_in radix c = (case digit_value c of None \<Rightarrow> False | Some d \<Rightarrow> d < radix)"

definition digits_value :: "nat \<Rightarrow> string \<Rightarrow> nat" where
  "digits_value radix ds =
     foldl (\<lambda>acc c. acc * radix + (case digit_value c of None \<Rightarrow> 0 | Some d \<Rightarrow> d)) 0 ds"

fun strip_sign :: "string \<Rightarrow> bool \<times> string" where
  "strip_sign [] = (False, [])"
| "strip_sign (c # cs) =
     (if c = CHR ''-'' then (True, cs)
      else if c = CHR ''+'' then (False, cs)
      else (False, c # cs))"

fun strip_radix :: "string \<Rightarrow> nat \<times> string" where
  "strip_radix (c # x # cs) =
     (if c = CHR ''0'' \<and> (x = CHR ''x'' \<or> x = CHR ''X'') then (16, cs) else (10, c # x # cs))"
| "strip_radix cs = (10, cs)"

definition parseInt :: "string \<Rightarrow> int option" where
  "parseInt s =
     (let (neg, s2) = strip_sign (dropWhile is_white_space s);
          (radix, s3) = strip_radix s2;
          ds = takeWhile (is_digit_in radix) s3
      in if ds = [] then None
         else Some ((if neg then - 1 else 1) * int (digits_value radix ds)))"

text \<open>
  A JavaScript \<open>Set\<close> iterates in insertion order; it is kept as a duplicate-free
  list.  \<open>add\<close> of a member already present changes nothing.
\<close>

definition Set_add :: "'a \<Rightarrow> 'a list \<Rightarrow> 'a list" where
  "Set_add x xs = (if x \<in> set xs then xs else xs @ [x])"

definition Set_delete :: "'a \<Rightarrow> 'a list \<Rightarrow> 'a list" where
  "Set_delete x xs = filter (\<lambda>y. y \<noteq> x) xs"

text \<open>
  \<open>Array.prototype.sort(compareFn)\<close>.  ECMAScript (2019 and later) requires the sort
  to be stable and, for a consistent comparison function, to produce the order the
  function describes; the algorithm itself is left to the engine.  The model is the
  stable insertion sort: an element moves in front of another one only when
  \<open>compareFn\<close> says it is not greater.
\<close>

fun insert_sorted :: "('a \<Rightarrow> 'a \<Rightarrow> int) \<Rightarrow> 'a \<Rightarrow> 'a list \<Rightarrow> 'a list" where
  "insert_sorted compareFn x [] = [x]"
| "insert_sorted compareFn x (y # ys) =
     (if compareFn x y \<le> 0 then x # y # ys else y # insert_sorted compareFn x ys)"

fun Array_sort :: "('a \<Rightarrow> 'a \<Rightarrow> int) \<Rightarrow> 'a list \<Rightarrow> 'a list" where
  "Array_sort compareFn [] = []"
| "Array_sort compareFn (x # xs) = insert_sorted compareFn x (Array_sort compareFn xs)"

section \<open>Data model\<close>

text \<open>
  A teardown entry and a device record as the dataset \<open>devices_with_scores.json\<close>
  supplies them.  Optional members are \<open>None\<close> when the JSON member is absent or
  \<open>null\<close>; the score is an integer or absent.
\<close>

record teardown =
  title :: string
  url :: string
  difficulty :: "string option"
  tags :: "string list option"

record device =
  name :: string
  brand :: "string option"
  link :: "string option"
  repairability_score :: "int option"
  teardown_urls :: "teardown list option"

text \<open>
  The page state the filter, the sort and the URL synchroniser read and write: the form
  controls, the module variable \<open>currentSort\<close> and the query part of the location.
  \<open>scoreFilter\<close> lists the values of the hidden inputs with that id in document
  order (\<open>getElementById\<close> returns the first); \<open>includeNoScore\<close> is \<open>None\<close> while
  the checkbox has not been created.  \<open>brandFilter\<close> is the value of the brand
  select and \<open>brandOptions\<close> the values of its options, which
  \<open>populateBrandFilter\<close> builds from the dataset.  The query string is kept as the
  list of its decoded key/value pairs, which is what
  \<open>new URLSearchParams(location.search)\<close> yields for the string that
  \<open>params.toString()\<close> wrote.
\<close>

record page =
  searchInput :: string
  brandFilter :: string
  brandOptions :: "string list"
  scoreFilter :: "string list"
  includeNoScore :: "bool option"
  currentSort_key :: string
  currentSort_direction :: string
  location_search :: "(string \<times> string) list"

section \<open>Filter engine\<close>

text \<open>\<open>document.getElementById('scoreFilter')?.value || ''\<close>\<close>

definition scoreFilter_value :: "page \<Rightarrow> string" where
  "scoreFilter_value p = (case scoreFilter p of [] \<Rightarrow> [] | v # _ \<Rightarrow> v)"

text \<open>\<open>document.getElementById('includeNoScore')?.checked === true\<close>\<close>

definition includeNoScore_checked :: "page \<Rightarrow> bool" where
  "includeNoScore_checked p = (case includeNoScore p of None \<Rightarrow> False | Some b \<Rightarrow> b)"

definition getFilteredData :: "page \<Rightarrow> device list \<Rightarrow> device list" where
  "getFilteredData p devicesData =
     (let searchValue = toLowerCase (searchInput p);
          brandValue = brandFilter p;
          scoreFilter = scoreFilter_value p;
          includeNoScore = includeNoScore_checked p
      in filter (\<lambda>d.
           let matchesSearch = includes_str (toLowerCase (name d)) searchValue;
               matchesBrand = (brandValue = [] \<or> brand d = Some brandValue);
               matchesScore = (scoreFilter = [] \<or>
                  (case parseInt scoreFilter of None \<Rightarrow> False
                   | Some n \<Rightarrow> repairability_score d = Some n));
               hasScoreOk = (if includeNoScore then True else repairability_score d \<noteq> None)
           in matchesSearch \<and> matchesBrand \<and> matchesScore \<and> hasScoreOk) devicesData)"

text \<open>
  The filter state as the specification describes it, and the controls that hold it:
  the brand select carries the empty string for "all manufacturers", the chart's click
  handler stores \<open>String(score)\<close> in the hidden input, and the segmented control
  sets the check box.
\<close>

definition spec_keeps :: "string \<Rightarrow> string option \<Rightarrow> nat option \<Rightarrow> bool \<Rightarrow> device \<Rightarrow> bool" where
  "spec_keeps searchText brandSel scoreSel includeUnscored d \<longleftrightarrow>
     sublist (toLowerCase searchText) (toLowerCase (name d)) \<and>
     (brandSel = None \<or> brand d = brandSel) \<and>
     (scoreSel = None \<or> repairability_score d = map_option int scoreSel) \<and>
     (includeUnscored \<or> repairability_score d \<noteq> None)"

definition controls :: "string \<Rightarrow> string option \<Rightarrow> nat option \<Rightarrow> bool \<Rightarrow> page \<Rightarrow> page" where
  "controls searchText brandSel scoreSel includeUnscored p =
     p\<lparr>searchInput := searchText,
       brandFilter := (case brandSel of None \<Rightarrow> [] | Some b \<Rightarrow> b),
       scoreFilter := (case scoreSel of None \<Rightarrow> [] | Some n \<Rightarrow> [String_nat n]),
       includeNoScore := Some includeUnscored\<rparr>"

section \<open>Sort engine\<close>

text \<open>
  The values a device member can hold.  \<open>JArray n\<close> is an array of \<open>n\<close> plain
  objects (the teardown list), whose \<open>toString()\<close> joins \<open>n\<close> copies of
  \<open>[object Object]\<close> with commas.
\<close>

datatype jsval = JUndefined | JNull | JNum int | JStr string | JArray nat

definition String_int :: "int \<Rightarrow> string" where
  "String_int n = (if n < 0 then CHR ''-'' # String_nat (nat (- n)) else String_nat (nat n))"

fun join_objects :: "nat \<Rightarrow> string" where
  "join_objects 0 = []"
| "join_objects (Suc 0) = ''[object Object]''"
| "join_objects (Suc (Suc n)) = ''[object Object],'' @ join_objects (Suc n)"

text \<open>\<open>a[key]\<close>\<close>

definition get_prop :: "device \<Rightarrow> string \<Rightarrow> jsval" where
  "get_prop a key =
     (if key = ''name'' then JStr (name a)
      else if key = ''brand'' then (case brand a of None \<Rightarrow> JUndefined | Some b \<Rightarrow> JStr b)
      else if key = ''link'' then (case link a of None \<Rightarrow> JUndefined | Some l \<Rightarrow> JStr l)
      else if key = ''repairability_score''
        then (case repairability_score a of None \<Rightarrow> JNull | Some n \<Rightarrow> JNum n)
      else if key = ''teardown_urls''
        then (case teardown_urls a of None \<Rightarrow> JUndefined | Some ts \<Rightarrow> JArray (length ts))
      else JUndefined)"

text \<open>\<open>A ?? d\<close>\<close>

definition nullish :: "jsval \<Rightarrow> jsval \<Rightarrow> jsval" where
  "nullish A d = (case A of JUndefined \<Rightarrow> d | JNull \<Rightarrow> d | _ \<Rightarrow> A)"

text \<open>\<open>(A || '').toString()\<close>: undefined, null, 0 and the empty string are falsy.\<close>

definition or_empty_toString :: "jsval \<Rightarrow> string" where
  "or_empty_toString A =
     (case A of
        JUndefined \<Rightarrow> []
      | JNull \<Rightarrow> []
      | JNum n \<Rightarrow> (if n = 0 then [] else String_int n)
      | JStr s \<Rightarrow> s
      | JArray n \<Rightarrow> join_objects n)"

text \<open>
  \<open>A < B\<close> on two numbers or on two strings.  The comparison function below always
  produces both operands in the same branch, so no other pair is compared.
\<close>

fun js_less :: "jsval \<Rightarrow> jsval \<Rightarrow> bool" where
  "js_less (JNum x) (JNum y) = (x < y)"
| "js_less (JStr s) (JStr t) = (s < t)"
| "js_less _ _ = False"

text \<open>The number of teardown entries: \<open>Array.isArray(a.teardown_urls) ? a.teardown_urls.length : 0\<close>\<close>

definition teardown_count :: "device \<Rightarrow> int" where
  "teardown_count a = (case teardown_urls a of None \<Rightarrow> 0 | Some ts \<Rightarrow> int (length ts))"

text \<open>The score operand of the sort: the score, or \<open>-1\<close> when it is absent.\<close>

definition score_or_sentinel :: "device \<Rightarrow> int" where
  "score_or_sentinel a = (case repairability_score a of None \<Rightarrow> - 1 | Some s \<Rightarrow> s)"

text \<open>The value of \<open>A\<close> (and, for the second record, of \<open>B\<close>) when the comparison is made.\<close>

definition sort_operand :: "string \<Rightarrow> device \<Rightarrow> jsval" where
  "sort_operand key a =
     (let A = get_prop a key;
          A = (if key = ''teardown'' then JNum (teardown_count a) else A)
      in if key = ''repairability_score'' \<or> key = ''teardown''
         then nullish A (JNum (- 1))
         else JStr (toLowerCase (or_empty_toString A)))"

definition compareFn :: "page \<Rightarrow> device \<Rightarrow> device \<Rightarrow> int" where
  "compareFn p a b =
     (let key = currentSort_key p;
          direction = currentSort_direction p;
          A = sort_operand key a;
          B = sort_operand key b
      in if js_less A B then (if direction = ''asc'' then - 1 else 1)
         else if js_less B A then (if direction = ''asc'' then 1 else - 1)
         else 0)"

definition sortData :: "page \<Rightarrow> device list \<Rightarrow> device list" where
  "sortData p data = Array_sort (compareFn p) data"

text \<open>
  The variant of the script in \<open>script.js\<close> has no count under the key
  \<open>teardown\<close>: its operand is the address of the first teardown,
  \<open>a.teardown_urls?.[0]?.url || ''\<close>, compared as a string.
\<close>

definition first_teardown_url :: "device \<Rightarrow> string" where
  "first_teardown_url a =
     (case teardown_urls a of None \<Rightarrow> [] | Some [] \<Rightarrow> [] | Some (t # _) \<Rightarrow> url t)"

definition sort_operand_script_js :: "string \<Rightarrow> device \<Rightarrow> jsval" where
  "sort_operand_script_js key a =
     (let A = get_prop a key;
          A = (if key = ''teardown'' then JStr (first_teardown_url a) else A)
      in if key = ''repairability_score''
         then nullish A (JNum (- 1))
         else JStr (toLowerCase (or_empty_toString A)))"

definition compareFn_script_js :: "page \<Rightarrow> device \<Rightarrow> device \<Rightarrow> int" where
  "compareFn_script_js p a b =
     (let key = currentSort_key p;
          direction = currentSort_direction p;
          A = sort_operand_script_js key a;
          B = sort_operand_script_js key b
      in if js_less A B then (if direction = ''asc'' then - 1 else 1)
         else if js_less B A then (if direction = ''asc'' then 1 else - 1)
         else 0)"

section \<open>Selection tracker\<close>

text \<open>
  The comparison selection and the elements its check-box listener touches.  An element
  that the page does not contain is \<open>None\<close>; the listener guards every access, and
  the part that builds the inline drawer message sits in a \<open>try\<close> block of its own.
  \<open>compareMsg\<close> is the message span in the drawer: its text and whether it carries
  the class \<open>show\<close>.
\<close>

definition MAX_COMPARE :: nat where
  "MAX_COMPARE = 5"

record drawer =
  drawer_hidden :: bool
  drawer_warn :: bool
  compareMsg :: "(string \<times> bool) option"

record compare_ui =
  selectedForCompare :: "string list"
  actionLive :: "string option"
  compareCount :: "string option"
  compareDrawer :: "drawer option"
  compareBtn_disabled :: "bool option"

definition selId :: "device \<Rightarrow> string" where
  "selId d = name d @ ''__'' @ (case brand d of None \<Rightarrow> [] | Some b \<Rightarrow> b)"

definition notifyAction :: "string \<Rightarrow> compare_ui \<Rightarrow> compare_ui" where
  "notifyAction msg ui =
     (case actionLive ui of None \<Rightarrow> ui | Some _ \<Rightarrow> ui\<lparr>actionLive := Some msg\<rparr>)"

definition refreshDrawer :: "bool \<Rightarrow> compare_ui \<Rightarrow> compare_ui" where
  "refreshDrawer warn ui =
     (let n = length (selectedForCompare ui) in
      ui\<lparr>compareCount :=
           map_option (\<lambda>_. String_nat n @ ''/'' @ String_nat MAX_COMPARE @ '' selected'')
             (compareCount ui),
         compareDrawer :=
           map_option (\<lambda>d. d\<lparr>drawer_hidden := (n = 0),
                               drawer_warn := (if warn then True else drawer_warn d)\<rparr>)
             (compareDrawer ui),
         compareBtn_disabled := map_option (\<lambda>_. n < 2) (compareBtn_disabled ui)\<rparr>)"

definition show_compareMsg :: "compare_ui \<Rightarrow> compare_ui" where
  "show_compareMsg ui =
     ui\<lparr>compareDrawer :=
          map_option
            (\<lambda>d. d\<lparr>compareMsg :=
                      Some (''You can compare up to '' @ String_nat MAX_COMPARE @ '' devices.'', True)\<rparr>)
            (compareDrawer ui)\<rparr>"

text \<open>
  The \<open>change\<close> listener of a row's check box.  \<open>checked\<close> is the state the user's
  click gave the box; the result pairs the state the listener leaves the box in with
  the updated page.
\<close>

definition cmp_change :: "string \<Rightarrow> bool \<Rightarrow> compare_ui \<Rightarrow> bool \<times> compare_ui" where
  "cmp_change sel checked ui =
     (if checked then
        (if length (selectedForCompare ui) \<ge> MAX_COMPARE then
           (False,
            refreshDrawer True
              (show_compareMsg
                 (notifyAction
                    (''You can compare up to '' @ String_nat MAX_COMPARE
                       @ '' devices. Deselect one to add another.'') ui)))
         else
           (True, refreshDrawer False (ui\<lparr>selectedForCompare := Set_add sel (selectedForCompare ui)\<rparr>)))
      else
        (False, refreshDrawer False (ui\<lparr>selectedForCompare := Set_delete sel (selectedForCompare ui)\<rparr>)))"

section \<open>State/URL synchroniser\<close>

text \<open>\<open>URLSearchParams\<close>: \<open>get\<close> returns the first value of a name, \<open>set\<close> overwrites the
  first pair of that name and drops the others (or appends), \<open>delete\<close> drops all.\<close>

fun params_get :: "string \<Rightarrow> (string \<times> string) list \<Rightarrow> string option" where
  "params_get k [] = None"
| "params_get k ((k', v) # ps) = (if k' = k then Some v else params_get k ps)"

definition params_delete :: "string \<Rightarrow> (string \<times> string) list \<Rightarrow> (string \<times> string) list" where
  "params_delete k ps = filter (\<lambda>kv. fst kv \<noteq> k) ps"

fun params_set :: "string \<Rightarrow> string \<Rightarrow> (string \<times> string) list \<Rightarrow> (string \<times> string) list" where
  "params_set k v [] = [(k, v)]"
| "params_set k v ((k', v') # ps) =
     (if k' = k then (k, v) # params_delete k ps else (k', v') # params_set k v ps)"

text \<open>\<open>params.get(k) || ''\<close>\<close>

definition get_or_empty :: "string \<Rightarrow> (string \<times> string) list \<Rightarrow> string" where
  "get_or_empty k ps = (case params_get k ps of None \<Rightarrow> [] | Some v \<Rightarrow> v)"

text \<open>\<open>if (!params.get(k)) params.delete(k)\<close>\<close>

definition clean_empty :: "(string \<times> string) list \<Rightarrow> string \<Rightarrow> (string \<times> string) list" where
  "clean_empty ps k = (if get_or_empty k ps = [] then params_delete k ps else ps)"

definition stateToQuery :: "page \<Rightarrow> page" where
  "stateToQuery p =
     (let params = location_search p;
          params = params_set ''q'' (searchInput p) params;
          params = params_set ''brand'' (brandFilter p) params;
          params = params_set ''sort'' (currentSort_key p @ '':'' @ currentSort_direction p) params;
          scoreHidden = scoreFilter_value p;
          params = params_set ''score'' scoreHidden params;
          includeNoScore = (if includeNoScore_checked p then ''1'' else []);
          params = params_set ''noscore'' includeNoScore params;
          params = foldl clean_empty params [''q'', ''brand'', ''score'', ''noscore'']
      in p\<lparr>location_search := params\<rparr>)"

text \<open>
  \<open>select.value = v\<close>: the option with that value becomes the selected one.  When
  the select has no such option nothing is selected and its value reads as the empty
  string.
\<close>

definition select_value :: "string list \<Rightarrow> string \<Rightarrow> string" where
  "select_value options v = (if v \<in> set options then v else [])"

text \<open>\<open>s.split(sep)\<close> for a one-character separator.\<close>

fun split :: "char \<Rightarrow> string \<Rightarrow> string list" where
  "split sep [] = [[]]"
| "split sep (c # cs) =
     (if c = sep then [] # split sep cs
      else (case split sep cs of [] \<Rightarrow> [[c]] | part # parts \<Rightarrow> (c # part) # parts))"

definition queryToState :: "page \<Rightarrow> page" where
  "queryToState p =
     (let params = location_search p;
          q = get_or_empty ''q'' params;
          brand = get_or_empty ''brand'' params;
          sort = get_or_empty ''sort'' params;
          score = get_or_empty ''score'' params;
          noscore = (params_get ''noscore'' params = Some ''1'');
          p = p\<lparr>searchInput := q\<rparr>;
          p = p\<lparr>brandFilter := select_value (brandOptions p) brand\<rparr>;
          p = (if score \<noteq> [] then p\<lparr>scoreFilter := scoreFilter p @ [score]\<rparr> else p);
          p = (if CHR '':'' \<in> set sort then
                 (case split (CHR '':'') sort of
                    key # dir # _ \<Rightarrow>
                      (let p = (if key \<noteq> [] then p\<lparr>currentSort_key := key\<rparr> else p)
                       in if dir = ''asc'' \<or> dir = ''desc''
                          then p\<lparr>currentSort_direction := dir\<rparr> else p)
                  | [key] \<Rightarrow> (if key \<noteq> [] then p\<lparr>currentSort_key := key\<rparr> else p)
                  | [] \<Rightarrow> p)
               else p)
      in p\<lparr>includeNoScore := Some noscore\<rparr>)"

text \<open>The filter/sort/includeUnscored configuration a page state stands for.\<close>

definition configuration :: "page \<Rightarrow> string \<times> string \<times> string \<times> string \<times> string \<times> bool" where
  "configuration p =
     (searchInput p, brandFilter p, currentSort_key p, currentSort_direction p,
      scoreFilter_value p, includeNoScore_checked p)"

text \<open>
  \<open>populateBrandFilter\<close>, which \<open>loadData\<close> calls once the dataset is there (after
  \<open>queryToState\<close> has run).  Assigning \<open>innerHTML\<close> replaces the options of the
  select by the entry for all manufacturers, which thereby becomes the selected one;
  the brands are appended after it.  \<open>sort()\<close> without a comparison function orders
  strings by their character codes.
\<close>

definition default_compare :: "string \<Rightarrow> string \<Rightarrow> int" where
  "default_compare x y = (if x < y then - 1 else if y < x then 1 else 0)"

definition populateBrandFilter :: "device list \<Rightarrow> page \<Rightarrow> page" where
  "populateBrandFilter devicesData p =
     (let brands =
            Array_sort default_compare
              (fold Set_add
                 (filter (\<lambda>b. b \<noteq> [])
                    (map (\<lambda>d. case brand d of None \<Rightarrow> [] | Some b \<Rightarrow> b) devicesData))
                 []);
          p = p\<lparr>brandOptions := [[]], brandFilter := []\<rparr>
      in p\<lparr>brandOptions := brandOptions p @ brands\<rparr>)"

section \<open>Chart buckets\<close>

text \<open>
  \<open>renderChart\<close> returns before any bucket is computed when the data is empty
  (\<open>None\<close>); otherwise the result is the bucket array handed to the chart.
\<close>

definition count_score :: "device \<Rightarrow> nat list \<Rightarrow> nat list" where
  "count_score d buckets =
     (case repairability_score d of
        None \<Rightarrow> buckets
      | Some s \<Rightarrow> if s \<ge> 0 \<and> s \<le> 10 then buckets[nat s := buckets ! nat s + 1] else buckets)"

definition renderChart :: "device list \<Rightarrow> nat list option" where
  "renderChart data =
     (if data = [] then None
      else Some (fold count_score data (replicate 11 0)))"

definition in_range_score :: "device \<Rightarrow> bool" where
  "in_range_score d = (case repairability_score d of None \<Rightarrow> False | Some s \<Rightarrow> 0 \<le> s \<and> s \<le> 10)"

section \<open>Teardown aggregation\<close>

text \<open>
  The priority table is a plain object.  Indexing it with one of its three keys yields
  the number stored there; indexing it with the name of a member that every object
  inherits from \<open>Object.prototype\<close> yields that member (a function, or the prototype
  itself for \<open>__proto__\<close>); any other name yields \<open>undefined\<close>.
\<close>

datatype member = Own int | Inherited | Missing

definition Object_prototype_members :: "string list" where
  "Object_prototype_members =
     [''constructor'', ''hasOwnProperty'', ''isPrototypeOf'', ''propertyIsEnumerable'',
      ''toLocaleString'', ''toString'', ''valueOf'', ''__proto__'', ''__defineGetter__'',
      ''__defineSetter__'', ''__lookupGetter__'', ''__lookupSetter__'']"

definition TAG_PRIORITY :: "string \<Rightarrow> member" where
  "TAG_PRIORITY a =
     (if a = ''starred'' then Own 0
      else if a = ''user_contributed'' then Own 1
      else if a = ''archived'' then Own 2
      else if a \<in> set Object_prototype_members then Inherited
      else Missing)"

text \<open>
  \<open>TAG_PRIORITY[a] ?? 999\<close> as an operand of the subtraction: the number it denotes,
  or \<open>None\<close> when the value is an inherited member, which is not nullish and
  converts to \<open>NaN\<close>.
\<close>

definition tag_priority :: "string \<Rightarrow> int option" where
  "tag_priority a =
     (case TAG_PRIORITY a of Own v \<Rightarrow> Some v | Missing \<Rightarrow> Some 999 | Inherited \<Rightarrow> None)"

text \<open>
  The comparison function of \<open>sortTags\<close>.  A difference with a \<open>NaN\<close> operand is
  \<open>NaN\<close>, and \<open>sort\<close> reads a \<open>NaN\<close> result as \<open>+0\<close>: the two tags tie.
\<close>

definition compare_tags :: "string \<Rightarrow> string \<Rightarrow> int" where
  "compare_tags a b =
     (case tag_priority a of
        None \<Rightarrow> 0
      | Some x \<Rightarrow> (case tag_priority b of None \<Rightarrow> 0 | Some y \<Rightarrow> x - y))"

definition sortTags :: "string list \<Rightarrow> string list" where
  "sortTags tgs = Array_sort compare_tags tgs"

definition isArchivedTeardown :: "teardown \<Rightarrow> bool" where
  "isArchivedTeardown t = (case tags t of None \<Rightarrow> False | Some ts \<Rightarrow> ''archived'' \<in> set ts)"

definition compare_indexed :: "teardown \<times> nat \<Rightarrow> teardown \<times> nat \<Rightarrow> int" where
  "compare_indexed a b =
     (let aArchived = (if isArchivedTeardown (fst a) then 1 else 0);
          bArchived = (if isArchivedTeardown (fst b) then 1 else 0)
      in if aArchived \<noteq> bArchived then aArchived - bArchived
         else int (snd a) - int (snd b))"

text \<open>Whether an indexed entry of \<open>withIndex\<close> holds an archived teardown.\<close>

definition archived_entry :: "teardown \<times> nat \<Rightarrow> bool" where
  "archived_entry a = isArchivedTeardown (fst a)"

definition sortTeardowns :: "teardown list \<Rightarrow> teardown list" where
  "sortTeardowns teardowns =
     (let withIndex = zip teardowns [0..<length teardowns];
          withIndex = Array_sort compare_indexed withIndex
      in map fst withIndex)"

text \<open>\<open>td.tags || []\<close>\<close>

definition tags_of :: "teardown \<Rightarrow> string list" where
  "tags_of td = (case tags td of None \<Rightarrow> [] | Some ts \<Rightarrow> ts)"

definition aggregateTeardownTags :: "teardown list \<Rightarrow> string list" where
  "aggregateTeardownTags teardownUrls =
     sortTags (fold (\<lambda>td st. fold Set_add (tags_of td) st) teardownUrls [])"

text \<open>
  The rank the specification gives a tag: \<open>starred\<close> before \<open>user_contributed\<close>
  before \<open>archived\<close>, every other tag after them.
\<close>

definition spec_tag_rank :: "string \<Rightarrow> nat" where
  "spec_tag_rank t =
     (if t = ''starred'' then 0 else if t = ''user_contributed'' then 1
      else if t = ''archived'' then 2 else 3)"

text \<open>
  \<open>sortTeardowns\<close> once more, with the arrays placed in a store so that the array it
  sorts in place can be told from the one it was given: \<open>map\<close> allocates a new array,
  \<open>sort\<close> overwrites the array it is called on.  An address is an index of the store.
\<close>

datatype array = Entries "teardown list" | Indexed "(teardown \<times> nat) list"

definition alloc :: "array list \<Rightarrow> array \<Rightarrow> array list \<times> nat" where
  "alloc store arr = (store @ [arr], length store)"

definition sortTeardowns_store :: "array list \<Rightarrow> nat \<Rightarrow> (array list \<times> nat) option" where
  "sortTeardowns_store store teardowns =
     (if teardowns < length store then
        (case store ! teardowns of
           Entries ts \<Rightarrow>
             (let (store, withIndex) = alloc store (Indexed (zip ts [0..<length ts]));
                  store = (case store ! withIndex of
                             Indexed ps \<Rightarrow> store[withIndex := Indexed (Array_sort compare_indexed ps)]
                           | Entries _ \<Rightarrow> store)
              in (case store ! withIndex of
                    Indexed ps \<Rightarrow> Some (alloc store (Entries (map fst ps)))
                  | Entries _ \<Rightarrow> None))
         | Indexed _ \<Rightarrow> None)
      else None)"

section \<open>Example data\<close>

text \<open>
  The three-device dataset of the specification's scenarios and further devices, the
  page before any data has arrived (default sort; the brand select holds only the entry
  for all manufacturers, the one \<open>populateBrandFilter\<close> writes first), and that
  page once the brand select has been filled.
\<close>

definition device_A :: device where
  "device_A = \<lparr>name = ''A'', brand = Some ''X'', link = None,
                repairability_score = Some 9, teardown_urls = None\<rparr>"

definition device_B :: device where
  "device_B = \<lparr>name = ''B'', brand = Some ''Y'', link = None,
                repairability_score = Some 3, teardown_urls = None\<rparr>"

definition device_C :: device where
  "device_C = \<lparr>name = ''C'', brand = Some ''X'', link = None,
                repairability_score = None, teardown_urls = None\<rparr>"

definition device_P :: device where
  "device_P = \<lparr>name = ''Pixel 7'', brand = Some ''Google'', link = None,
                repairability_score = Some 7, teardown_urls = None\<rparr>"

definition device_F :: device where
  "device_F = \<lparr>name = ''Fairphone 5'', brand = Some ''Fairphone'', link = None,
                repairability_score = Some 10, teardown_urls = None\<rparr>"

definition initial_page :: page where
  "initial_page = \<lparr>searchInput = [], brandFilter = [], brandOptions = [[]], scoreFilter = [],
                    includeNoScore = None, currentSort_key = ''name'',
                    currentSort_direction = ''asc'', location_search = []\<rparr>"

definition teardown_T1 :: teardown where
  "teardown_T1 = \<lparr>title = ''T1'', url = ''https://example.org/t1'', difficulty = None,
                   tags = Some [''archived'']\<rparr>"

definition teardown_T2 :: teardown where
  "teardown_T2 = \<lparr>title = ''T2'', url = ''https://example.org/t2'', difficulty = None,
                   tags = Some []\<rparr>"

definition teardown_T3 :: teardown where
  "teardown_T3 = \<lparr>title = ''T3'', url = ''https://example.org/t3'', difficulty = None,
                   tags = Some [''constructor'', ''starred'']\<rparr>"

definition device_S :: device where
  "device_S = \<lparr>name = ''S'', brand = None, link = None, repairability_score = Some 5,
                teardown_urls = Some [teardown_T1]\<rparr>"

definition device_T :: device where
  "device_T = \<lparr>name = ''T'', brand = None, link = None, repairability_score = Some 5,
                teardown_urls = Some [teardown_T1, teardown_T2]\<rparr>"

definition listed_page :: page where
  "listed_page = initial_page\<lparr>brandOptions := [[], ''Apple'', ''Google'']\<rparr>"

text \<open>
  The state of the specification's round-trip example (search "pixel", brand "Google",
  sort by score descending, score filter 7, unscored included), and a selection that
  holds five devices.
\<close>

definition example_state :: page where
  "example_state = \<lparr>searchInput = ''pixel'', brandFilter = ''Google'',
                     brandOptions = [[], ''Apple'', ''Google''], scoreFilter = [''7''],
                     includeNoScore = Some True, currentSort_key = ''repairability_score'',
                     currentSort_direction = ''desc'', location_search = []\<rparr>"

definition full_selection :: compare_ui where
  "full_selection = \<lparr>selectedForCompare =
                        map selId [device_A, device_B, device_C, device_T, device_P],
                      actionLive = Some [], compareCount = Some ''5/5 selected'',
                      compareDrawer = Some \<lparr>drawer_hidden = False, drawer_warn = False,
                                             compareMsg = None\<rparr>,
                      compareBtn_disabled = Some False\<rparr>"

section \<open>Facts about the platform functions\<close>

lemma is_decimal_digit_char: "d < 10 \<Longrightarrow> is_decimal (digit_char d)"
  by (simp add: is_decimal_def digit_char_def)

lemma digit_value_digit_char: "d < 10 \<Longrightarrow> digit_value (digit_char d) = Some d"
  by (simp add: digit_value_def digit_char_def)

lemma String_nat_decimal: "\<forall>c \<in> set (String_nat n). is_decimal c"
proof (induction n rule: String_nat.induct)
  case (1 n)
  show ?case
  proof (cases "n < 10")
    case True
    then show ?thesis by (simp add: String_nat.simps [of n] is_decimal_digit_char)
  next
    case False
    with 1 show ?thesis by (simp add: String_nat.simps [of n] is_decimal_digit_char)
  qed
qed

lemma String_nat_not_Nil: "String_nat n \<noteq> []"
  by (subst String_nat.simps) simp

lemma digits_value_snoc:
  "digits_value r (ds @ [c]) =
     digits_value r ds * r + (case digit_value c of None \<Rightarrow> 0 | Some d \<Rightarrow> d)"
  by (simp add: digits_value_def)

lemma digits_value_String_nat: "digits_value 10 (String_nat n) = n"
proof (induction n rule: String_nat.induct)
  case (1 n)
  show ?case
  proof (cases "n < 10")
    case True
    then show ?thesis
      by (simp add: String_nat.simps [of n] digits_value_def digit_value_digit_char)
  next
    case False
    with 1 have "digits_value 10 (String_nat (n div 10)) = n div 10" by simp
    with False show ?thesis
      by (simp add: String_nat.simps [of n] digits_value_snoc digit_value_digit_char)
  qed
qed

lemma decimal_not_white: "is_decimal c \<Longrightarrow> \<not> is_white_space c"
  by (auto simp: is_decimal_def is_white_space_def)

lemma decimal_is_digit_in: "is_decimal c \<Longrightarrow> is_digit_in 10 c"
  by (auto simp: is_decimal_def is_digit_in_def digit_value_def Let_def)

lemma decimal_not_sign:
  "is_decimal c \<Longrightarrow> c \<noteq> CHR ''-'' \<and> c \<noteq> CHR ''+'' \<and> c \<noteq> CHR ''x'' \<and> c \<noteq> CHR ''X''"
  by (auto simp: is_decimal_def)

text \<open>On a non-empty string of decimal digits \<open>parseInt\<close> reads the whole string.\<close>

lemma parseInt_decimal:
  assumes "s \<noteq> []" and "\<forall>c \<in> set s. is_decimal c"
  shows "parseInt s = Some (int (digits_value 10 s))"
proof -
  obtain c cs where s: "s = c # cs" using assms(1) by (cases s) auto
  have c: "is_decimal c" using assms(2) s by simp
  have no_space: "dropWhile is_white_space s = s"
    using c s by (simp add: decimal_not_white)
  have no_sign: "strip_sign s = (False, s)"
    using c s decimal_not_sign [of c] by simp
  have base10: "strip_radix s = (10, s)"
  proof (cases cs)
    case Nil
    then show ?thesis using s by simp
  next
    case (Cons x xs)
    then have "is_decimal x" using assms(2) s by simp
    then show ?thesis using s Cons decimal_not_sign [of x] by simp
  qed
  have all_digits: "takeWhile (is_digit_in 10) s = s"
    using assms(2) by (simp add: decimal_is_digit_in)
  show ?thesis
    using assms(1) by (simp add: parseInt_def no_space no_sign base10 all_digits)
qed

lemma parseInt_String_nat: "parseInt (String_nat n) = Some (int n)"
  using parseInt_decimal [OF String_nat_not_Nil, of n] String_nat_decimal [of n]
  by (simp add: digits_value_String_nat)

lemma includes_str_sublist: "includes_str s t \<longleftrightarrow> sublist t s"
  by (induction s) (auto simp: sublist_Cons_right)

lemma includes_str_Nil: "includes_str s []"
  by (cases s) simp_all

section \<open>The filter\<close>

lemma getFilteredData_controls:
  assumes "brandSel \<noteq> Some []"
  shows "getFilteredData (controls searchText brandSel scoreSel includeUnscored p) devs =
         filter (spec_keeps searchText brandSel scoreSel includeUnscored) devs"
proof -
  have "String_nat n \<noteq> []" for n by (rule String_nat_not_Nil)
  then show ?thesis using assms
    by (cases brandSel; cases scoreSel)
       (auto simp: getFilteredData_def controls_def spec_keeps_def scoreFilter_value_def
          includeNoScore_checked_def includes_str_sublist parseInt_String_nat
          intro!: filter_cong)
qed

lemma spec_keeps_example:
  "filter (spec_keeps ''pix'' (Some ''Google'') (Some 7) False) [device_A, device_P] = [device_P]"
  by code_simp

text \<open>
  C1.  With the controls holding a filter state (search text, a brand or none, a score
  or none, the include-unscored flag), \<open>getFilteredData\<close> keeps exactly the records,
  in their order, whose lower-cased name contains the lower-cased search text, whose
  brand is the selected one if a brand is selected, whose score is the selected one if
  a score is selected, and whose score is present unless unscored devices are
  included.  The brand select uses the empty string for "no brand", so a selected
  brand is a non-empty string.  On the dataset A (X, 9), B (Y, 3), C (X, no score) the
  filter "brand X, scored only" leaves exactly A.
\<close>

theorem filter_keeps:
  "(brandSel \<noteq> Some [] \<longrightarrow>
      getFilteredData (controls searchText brandSel scoreSel includeUnscored p) devs =
      filter (spec_keeps searchText brandSel scoreSel includeUnscored) devs) \<and>
   getFilteredData (controls [] (Some ''X'') None False initial_page)
      [device_A, device_B, device_C] = [device_A]"
proof
  show "brandSel \<noteq> Some [] \<longrightarrow>
      getFilteredData (controls searchText brandSel scoreSel includeUnscored p) devs =
      filter (spec_keeps searchText brandSel scoreSel includeUnscored) devs"
    by (simp add: getFilteredData_controls)
  show "getFilteredData (controls [] (Some ''X'') None False initial_page)
      [device_A, device_B, device_C] = [device_A]"
    by (simp add: getFilteredData_def controls_def scoreFilter_value_def
        includeNoScore_checked_def includes_str_Nil toLowerCase_def
        device_A_def device_B_def device_C_def)
qed

theorem filter_keeps_witness:
  "Some ''Google'' \<noteq> Some [] \<and>
   getFilteredData (controls ''pix'' (Some ''Google'') (Some 7) False initial_page)
     [device_A, device_P] = [device_P]"
  using filter_keeps [of "Some ''Google''" "''pix''" "Some 7" False initial_page
      "[device_A, device_P]"]
    spec_keeps_example
  by simp

text \<open>
  C10.  When the search box and the brand select are empty, no score filter is set and
  unscored devices are included, \<open>getFilteredData\<close> returns the dataset as it is.
\<close>

theorem filter_all_pass:
  "searchInput p = [] \<Longrightarrow> brandFilter p = [] \<Longrightarrow> scoreFilter_value p = [] \<Longrightarrow>
   includeNoScore_checked p \<Longrightarrow> getFilteredData p devs = devs"
  by (simp add: getFilteredData_def includes_str_Nil toLowerCase_def)

theorem filter_all_pass_witness:
  "getFilteredData (initial_page\<lparr>includeNoScore := Some True\<rparr>)
     [device_A, device_B, device_C] = [device_A, device_B, device_C]"
  using filter_all_pass [of "initial_page\<lparr>includeNoScore := Some True\<rparr>"
      "[device_A, device_B, device_C]"]
  by (simp add: initial_page_def scoreFilter_value_def includeNoScore_checked_def)

section \<open>The sort\<close>

subsection \<open>The stable sort behind \<open>Array.prototype.sort\<close>\<close>

lemma mset_insert_sorted: "mset (insert_sorted c x ys) = add_mset x (mset ys)"
  by (induction ys) auto

lemma mset_Array_sort: "mset (Array_sort c xs) = mset xs"
  by (induction xs) (auto simp: mset_insert_sorted)

lemma set_insert_sorted: "set (insert_sorted c x ys) = insert x (set ys)"
  by (induction ys) auto

lemma set_Array_sort: "set (Array_sort c xs) = set xs"
  by (metis mset_Array_sort set_mset_mset)

text \<open>An element never overtakes one that the comparison function ranks no higher.\<close>

lemma filter_insert_sorted:
  assumes "P x \<Longrightarrow> \<forall>y \<in> set ys. P y \<longrightarrow> c x y \<le> 0"
  shows "filter P (insert_sorted c x ys) = (if P x then x # filter P ys else filter P ys)"
  using assms by (induction ys) auto

lemma filter_Array_sort:
  assumes "\<And>x y. P x \<Longrightarrow> P y \<Longrightarrow> c x y \<le> 0"
  shows "filter P (Array_sort c xs) = filter P xs"
proof (induction xs)
  case Nil
  then show ?case by simp
next
  case (Cons x xs)
  have "filter P (insert_sorted c x (Array_sort c xs)) =
        (if P x then x # filter P (Array_sort c xs) else filter P (Array_sort c xs))"
    by (rule filter_insert_sorted) (simp add: assms)
  with Cons show ?case by simp
qed

lemma sorted_insert_sorted:
  assumes total: "\<And>x y. c x y \<le> 0 \<or> c y x \<le> 0"
    and trans: "\<And>x y z. c x y \<le> 0 \<Longrightarrow> c y z \<le> 0 \<Longrightarrow> c x z \<le> 0"
    and "sorted_wrt (\<lambda>a b. c a b \<le> 0) ys"
  shows "sorted_wrt (\<lambda>a b. c a b \<le> 0) (insert_sorted c x ys)"
  using assms(3)
proof (induction ys)
  case Nil
  then show ?case by simp
next
  case (Cons y ys)
  show ?case
  proof (cases "c x y \<le> 0")
    case True
    with Cons.prems show ?thesis by (auto intro: trans)
  next
    case False
    then have "c y x \<le> 0" using total [of x y] by simp
    with False Cons show ?thesis by (auto simp: set_insert_sorted)
  qed
qed

lemma sorted_Array_sort:
  assumes total: "\<And>x y. c x y \<le> 0 \<or> c y x \<le> 0"
    and trans: "\<And>x y z. c x y \<le> 0 \<Longrightarrow> c y z \<le> 0 \<Longrightarrow> c x z \<le> 0"
  shows "sorted_wrt (\<lambda>a b. c a b \<le> 0) (Array_sort c xs)"
proof (induction xs)
  case Nil
  then show ?case by simp
next
  case (Cons x xs)
  have "sorted_wrt (\<lambda>a b. c a b \<le> 0) (insert_sorted c x (Array_sort c xs))"
    using total trans Cons by (rule sorted_insert_sorted)
  then show ?case by simp
qed

subsection \<open>The comparison function of \<open>sortData\<close>\<close>

lemma js_less_irrefl: "\<not> js_less A A"
  by (cases A) simp_all

lemma compareFn_equal_operands:
  "sort_operand (currentSort_key p) a = sort_operand (currentSort_key p) b \<Longrightarrow>
   compareFn p a b = 0"
  by (simp add: compareFn_def js_less_irrefl)

lemma sort_operand_teardown: "sort_operand ''teardown'' a = JNum (teardown_count a)"
  by (simp add: sort_operand_def nullish_def)

lemma sort_operand_score: "sort_operand ''repairability_score'' a = JNum (score_or_sentinel a)"
  by (simp add: sort_operand_def nullish_def get_prop_def score_or_sentinel_def
      split: option.splits)

lemma compareFn_numeric:
  assumes "\<And>d. sort_operand (currentSort_key p) d = JNum (f d)"
  shows "compareFn p a b =
     (if f a < f b then (if currentSort_direction p = ''asc'' then - 1 else 1)
      else if f b < f a then (if currentSort_direction p = ''asc'' then 1 else - 1)
      else 0)"
  by (simp add: compareFn_def assms)

lemma sortData_numeric_ascending:
  assumes "\<And>d. sort_operand (currentSort_key p) d = JNum (f d)"
    and "currentSort_direction p = ''asc''"
  shows "sorted_wrt (\<lambda>a b. f a \<le> f b) (sortData p xs)"
proof -
  have le: "compareFn p a b \<le> 0 \<longleftrightarrow> f a \<le> f b" for a b
    using assms(2) by (auto simp: compareFn_numeric [OF assms(1)])
  have "sorted_wrt (\<lambda>a b. compareFn p a b \<le> 0) (Array_sort (compareFn p) xs)"
    by (rule sorted_Array_sort) (auto simp: le)
  then show ?thesis by (simp add: sortData_def le)
qed

lemma sortData_numeric_descending:
  assumes "\<And>d. sort_operand (currentSort_key p) d = JNum (f d)"
    and "currentSort_direction p \<noteq> ''asc''"
  shows "sorted_wrt (\<lambda>a b. f b \<le> f a) (sortData p xs)"
proof -
  have le: "compareFn p a b \<le> 0 \<longleftrightarrow> f b \<le> f a" for a b
    using assms(2) by (auto simp: compareFn_numeric [OF assms(1)])
  have "sorted_wrt (\<lambda>a b. compareFn p a b \<le> 0) (Array_sort (compareFn p) xs)"
    by (rule sorted_Array_sort) (auto simp: le)
  then show ?thesis by (simp add: sortData_def le)
qed

text \<open>
  For every sort key the operands of all records are numbers or are all strings, so the
  comparison function is consistent (a total preorder), and the sorted view is the one
  stable arrangement of the input that it describes.
\<close>

lemma compareFn_le_iff:
  fixes f :: "device \<Rightarrow> 'k::linorder"
  assumes "\<And>a b. js_less (sort_operand (currentSort_key p) a) (sort_operand (currentSort_key p) b)
             \<longleftrightarrow> f a < f b"
  shows "compareFn p a b \<le> 0 \<longleftrightarrow>
           (if currentSort_direction p = ''asc'' then f a \<le> f b else f b \<le> f a)"
  by (auto simp: compareFn_def assms Let_def)

lemma sortData_ordered:
  fixes f :: "device \<Rightarrow> 'k::linorder"
  assumes "\<And>a b. js_less (sort_operand (currentSort_key p) a) (sort_operand (currentSort_key p) b)
             \<longleftrightarrow> f a < f b"
  shows "sorted_wrt (\<lambda>a b. compareFn p a b \<le> 0) (sortData p xs)"
  unfolding sortData_def
  by (rule sorted_Array_sort) (auto simp: compareFn_le_iff [of p f, OF assms])

lemma sortData_consistent: "sorted_wrt (\<lambda>a b. compareFn p a b \<le> 0) (sortData p xs)"
proof -
  consider "currentSort_key p = ''teardown''" | "currentSort_key p = ''repairability_score''"
    | "currentSort_key p \<noteq> ''teardown''" "currentSort_key p \<noteq> ''repairability_score''"
    by blast
  then show ?thesis
  proof cases
    case 1
    show ?thesis
      by (rule sortData_ordered [where f = teardown_count]) (simp add: 1 sort_operand_teardown)
  next
    case 2
    show ?thesis
      by (rule sortData_ordered [where f = score_or_sentinel]) (simp add: 2 sort_operand_score)
  next
    case 3
    show ?thesis
      by (rule sortData_ordered
            [where f = "\<lambda>d. toLowerCase (or_empty_toString (get_prop d (currentSort_key p)))"])
         (simp add: 3 sort_operand_def)
  qed
qed

lemma mset_sortData: "mset (sortData p xs) = mset xs"
  by (simp add: sortData_def mset_Array_sort)

text \<open>
  C4.  With the sort key \<open>teardown\<close> the comparison function compares the two records
  by the lengths of their \<open>teardown_urls\<close> lists (0 when the list is absent), as
  numbers: the record with fewer entries gets a negative result when the direction is
  \<open>asc\<close> and a positive one otherwise, and equal lengths tie.  The sorted view holds
  the same records and is ordered by that length, rising when the direction is
  \<open>asc\<close> and falling otherwise.
\<close>

theorem teardown_count_sort:
  assumes "currentSort_key p = ''teardown''"
  shows "(let entries = (\<lambda>d. case teardown_urls d of None \<Rightarrow> 0 | Some ts \<Rightarrow> length ts) in
          compareFn p a b =
            (if entries a < entries b
               then (if currentSort_direction p = ''asc'' then - 1 else 1)
             else if entries b < entries a
               then (if currentSort_direction p = ''asc'' then 1 else - 1)
             else 0) \<and>
          mset (sortData p xs) = mset xs \<and>
          (currentSort_direction p = ''asc'' \<longrightarrow>
             sorted_wrt (\<lambda>x y. entries x \<le> entries y) (sortData p xs)) \<and>
          (currentSort_direction p \<noteq> ''asc'' \<longrightarrow>
             sorted_wrt (\<lambda>x y. entries y \<le> entries x) (sortData p xs)))"
proof -
  have op: "sort_operand (currentSort_key p) d = JNum (teardown_count d)" for d
    by (simp add: assms sort_operand_teardown)
  have count: "teardown_count d =
      int (case teardown_urls d of None \<Rightarrow> 0 | Some ts \<Rightarrow> length ts)" for d
    by (simp add: teardown_count_def split: option.splits)
  show ?thesis
    using compareFn_numeric [of p teardown_count a b, OF op]
      sortData_numeric_ascending [of p teardown_count xs, OF op]
      sortData_numeric_descending [of p teardown_count xs, OF op]
    by (simp add: count mset_sortData Let_def)
qed

theorem teardown_count_sort_witness:
  "compareFn (initial_page\<lparr>currentSort_key := ''teardown''\<rparr>) device_S device_T = - 1 \<and>
   compareFn (initial_page\<lparr>currentSort_key := ''teardown''\<rparr>) device_T device_S = 1 \<and>
   compareFn (initial_page\<lparr>currentSort_key := ''teardown''\<rparr>) device_A device_S = - 1 \<and>
   compareFn (initial_page\<lparr>currentSort_key := ''teardown'', currentSort_direction := ''desc''\<rparr>)
     device_S device_T = 1 \<and>
   sortData (initial_page\<lparr>currentSort_key := ''teardown''\<rparr>) [device_T, device_S, device_A, device_B]
     = [device_A, device_B, device_S, device_T]"
proof -
  have key: "currentSort_key (initial_page\<lparr>currentSort_key := ''teardown''\<rparr>) = ''teardown''"
    "currentSort_key
       (initial_page\<lparr>currentSort_key := ''teardown'', currentSort_direction := ''desc''\<rparr>)
     = ''teardown''"
    by simp_all
  have "sortData (initial_page\<lparr>currentSort_key := ''teardown''\<rparr>)
          [device_T, device_S, device_A, device_B]
     = [device_A, device_B, device_S, device_T]"
    by code_simp
  then show ?thesis
    using teardown_count_sort [OF key(1), of device_S device_T]
      teardown_count_sort [OF key(1), of device_T device_S]
      teardown_count_sort [OF key(1), of device_A device_S]
      teardown_count_sort [OF key(2), of device_S device_T]
    by (simp add: initial_page_def device_A_def device_S_def device_T_def Let_def)
qed

text \<open>
  The variant in \<open>script.js\<close> does not compare counts under the key
  \<open>teardown\<close>: it compares the lower-cased address of the first teardown, so two
  devices with different numbers of teardowns and the same first address tie there.
\<close>

lemma compareFn_script_js_teardown:
  "compareFn_script_js (initial_page\<lparr>currentSort_key := ''teardown''\<rparr>)
     (device_T\<lparr>teardown_urls := Some [teardown_T1]\<rparr>) device_T = 0 \<and>
   compareFn (initial_page\<lparr>currentSort_key := ''teardown''\<rparr>)
     (device_T\<lparr>teardown_urls := Some [teardown_T1]\<rparr>) device_T = - 1"
  by code_simp

text \<open>
  C5.  With the sort key \<open>repairability_score\<close> an absent score is replaced by \<open>-1\<close>
  before the numbers are compared, so a record without a score compares below every
  record whose score is 0 or more, and an ascending sort orders the view by the score
  with the unscored records first.  Sorting A (9), B (3), C (no score) ascending, with
  unscored devices included, gives C, B, A.
\<close>

theorem score_sort_absent_first:
  "(currentSort_key p = ''repairability_score'' \<longrightarrow>
      (repairability_score a = None \<longrightarrow> repairability_score b = Some s \<longrightarrow> 0 \<le> s \<longrightarrow>
         compareFn p a b = (if currentSort_direction p = ''asc'' then - 1 else 1) \<and>
         compareFn p b a = (if currentSort_direction p = ''asc'' then 1 else - 1)) \<and>
      (currentSort_direction p = ''asc'' \<longrightarrow>
         sorted_wrt (\<lambda>x y. score_or_sentinel x \<le> score_or_sentinel y) (sortData p xs))) \<and>
   sortData (initial_page\<lparr>includeNoScore := Some True, currentSort_key := ''repairability_score''\<rparr>)
     (getFilteredData
        (initial_page\<lparr>includeNoScore := Some True, currentSort_key := ''repairability_score''\<rparr>)
        [device_A, device_B, device_C])
     = [device_C, device_B, device_A]"
proof (intro conjI impI)
  assume key: "currentSort_key p = ''repairability_score''"
  have op: "sort_operand (currentSort_key p) d = JNum (score_or_sentinel d)" for d
    by (simp add: key sort_operand_score)
  {
    assume "repairability_score a = None" "repairability_score b = Some s" "0 \<le> s"
    then have "score_or_sentinel a < score_or_sentinel b"
      by (simp add: score_or_sentinel_def)
    then show "compareFn p a b = (if currentSort_direction p = ''asc'' then - 1 else 1)"
      and "compareFn p b a = (if currentSort_direction p = ''asc'' then 1 else - 1)"
      by (simp_all add: compareFn_numeric [of p score_or_sentinel, OF op])
  }
  assume "currentSort_direction p = ''asc''"
  then show "sorted_wrt (\<lambda>x y. score_or_sentinel x \<le> score_or_sentinel y) (sortData p xs)"
    using sortData_numeric_ascending [of p score_or_sentinel xs, OF op] by simp
next
  show "sortData (initial_page\<lparr>includeNoScore := Some True, currentSort_key := ''repairability_score''\<rparr>)
     (getFilteredData
        (initial_page\<lparr>includeNoScore := Some True, currentSort_key := ''repairability_score''\<rparr>)
        [device_A, device_B, device_C])
     = [device_C, device_B, device_A]"
    by code_simp
qed

theorem score_sort_absent_first_witness:
  "compareFn (initial_page\<lparr>currentSort_key := ''repairability_score''\<rparr>) device_C device_B = - 1 \<and>
   compareFn (initial_page\<lparr>currentSort_key := ''repairability_score''\<rparr>) device_B device_C = 1"
  using score_sort_absent_first
    [of "initial_page\<lparr>currentSort_key := ''repairability_score''\<rparr>" device_C device_B 3]
  by (simp add: initial_page_def device_B_def device_C_def)

text \<open>
  C6.  For every sort key and direction and every list, the records that share a
  comparison operand (the value \<open>sortData\<close> extracts from a record before comparing)
  leave \<open>sortData\<close> in the order in which they entered it.
\<close>

theorem sort_stable:
  "filter (\<lambda>d. sort_operand (currentSort_key p) d = v) (sortData p xs) =
   filter (\<lambda>d. sort_operand (currentSort_key p) d = v) xs"
  unfolding sortData_def
  by (rule filter_Array_sort) (simp add: compareFn_equal_operands)

theorem sort_stable_witness:
  "filter (\<lambda>d. sort_operand ''brand'' d = JStr ''x'')
     (sortData (initial_page\<lparr>currentSort_key := ''brand'', currentSort_direction := ''desc''\<rparr>)
        [device_A, device_B, device_C])
   = [device_A, device_C]"
proof -
  have "filter (\<lambda>d. sort_operand ''brand'' d = JStr ''x'') [device_A, device_B, device_C]
     = [device_A, device_C]"
    by code_simp
  then show ?thesis
    using sort_stable
      [of "initial_page\<lparr>currentSort_key := ''brand'', currentSort_direction := ''desc''\<rparr>"
        "JStr ''x''" "[device_A, device_B, device_C]"]
    by simp
qed

section \<open>The chart\<close>

lemma length_count_score: "length (count_score d bs) = length bs"
  by (simp add: count_score_def split: option.splits)

lemma length_fold_count_score: "length (fold count_score ds bs) = length bs"
  by (induction ds arbitrary: bs) (simp_all add: length_count_score)

lemma sum_list_update_Suc:
  "i < length bs \<Longrightarrow> sum_list (bs[i := Suc (bs ! i)]) = Suc (sum_list bs)"
proof (induction bs arbitrary: i)
  case Nil
  then show ?case by simp
next
  case (Cons b bs)
  then show ?case by (cases i) simp_all
qed

lemma sum_list_count_score:
  assumes "length bs = 11"
  shows "sum_list (count_score d bs) = sum_list bs + (if in_range_score d then 1 else 0)"
proof (cases "repairability_score d")
  case None
  then show ?thesis by (simp add: count_score_def in_range_score_def)
next
  case (Some s)
  show ?thesis
  proof (cases "0 \<le> s \<and> s \<le> 10")
    case True
    then have "nat s < length bs" using assms by arith
    then show ?thesis using True Some
      by (simp add: count_score_def in_range_score_def sum_list_update_Suc)
  next
    case False
    then show ?thesis using Some by (auto simp: count_score_def in_range_score_def)
  qed
qed

lemma sum_list_fold_count_score:
  "length bs = 11 \<Longrightarrow>
   sum_list (fold count_score ds bs) = sum_list bs + length (filter in_range_score ds)"
proof (induction ds arbitrary: bs)
  case Nil
  then show ?case by simp
next
  case (Cons d ds)
  have "length (count_score d bs) = 11" using Cons.prems by (simp add: length_count_score)
  then show ?case using Cons.IH [of "count_score d bs"] Cons.prems
    by (simp add: sum_list_count_score)
qed

lemma nth_count_score:
  "length bs = 11 \<Longrightarrow> k < 11 \<Longrightarrow>
   count_score d bs ! k = bs ! k + (if repairability_score d = Some (int k) then 1 else 0)"
  by (auto simp: count_score_def nth_list_update split: option.splits)

lemma nth_fold_count_score:
  "length bs = 11 \<Longrightarrow> k < 11 \<Longrightarrow>
   fold count_score ds bs ! k = bs ! k + length (filter (\<lambda>d. repairability_score d = Some (int k)) ds)"
proof (induction ds arbitrary: bs)
  case Nil
  then show ?case by simp
next
  case (Cons d ds)
  have "length (count_score d bs) = 11" using Cons.prems by (simp add: length_count_score)
  then show ?case using Cons.IH [of "count_score d bs"] Cons.prems
    by (simp add: nth_count_score)
qed

lemma length_filter_eq_iff: "length (filter P xs) = length xs \<longleftrightarrow> (\<forall>x \<in> set xs. P x)"
  by (metis filter_id_conv length_filter_less less_irrefl_nat  filter_True)

text \<open>
  C7.  For non-empty data \<open>renderChart\<close> computes an array of 11 buckets; bucket
  \<open>k\<close> counts the records whose score is \<open>k\<close>, so a record is counted, once, only
  when its score is present and lies in 0..10.  The buckets sum to the number of such
  records, which is at most the number of records, and equals it exactly when every
  record's score is an integer in 0..10.
\<close>

theorem chart_buckets:
  assumes "data \<noteq> []"
  shows "\<exists>buckets. renderChart data = Some buckets \<and> length buckets = 11 \<and>
           (\<forall>k < 11. buckets ! k = length (filter (\<lambda>d. repairability_score d = Some (int k)) data)) \<and>
           sum_list buckets = length (filter in_range_score data) \<and>
           sum_list buckets \<le> length data \<and>
           (sum_list buckets = length data \<longleftrightarrow> (\<forall>d \<in> set data. in_range_score d))"
  using assms
  by (simp add: renderChart_def length_fold_count_score sum_list_fold_count_score
      nth_fold_count_score length_filter_eq_iff sum_list_replicate)

theorem chart_buckets_witness:
  "[device_A, device_B, device_C] \<noteq> [] \<and>
   (\<exists>buckets. renderChart [device_A, device_B, device_C] = Some buckets \<and>
      length buckets = 11 \<and> buckets ! 9 = 1 \<and> buckets ! 0 = 0 \<and> sum_list buckets = 2 \<and>
      sum_list buckets \<noteq> length [device_A, device_B, device_C])"
  using chart_buckets [of "[device_A, device_B, device_C]"]
  by (auto simp: in_range_score_def device_A_def device_B_def device_C_def)

section \<open>Teardowns\<close>

lemma insert_sorted_front:
  "ys = [] \<or> c x (hd ys) \<le> 0 \<Longrightarrow> insert_sorted c x ys = x # ys"
  by (cases ys) auto

lemma insert_sorted_skip:
  "\<forall>y \<in> set xs. 0 < c x y \<Longrightarrow> insert_sorted c x (xs @ ys) = xs @ insert_sorted c x ys"
  by (induction xs) auto

lemma compare_indexed_cases:
  "compare_indexed a b =
     (if archived_entry a \<and> \<not> archived_entry b then 1
      else if \<not> archived_entry a \<and> archived_entry b then - 1
      else int (snd a) - int (snd b))"
  by (simp add: compare_indexed_def archived_entry_def)

lemma Array_sort_indexed:
  assumes "sorted_wrt (\<lambda>a b. snd a < snd b) ps"
  shows "Array_sort compare_indexed ps =
         filter (\<lambda>a. \<not> archived_entry a) ps @ filter archived_entry ps"
  using assms
proof (induction ps)
  case Nil
  then show ?case by simp
next
  case (Cons p ps)
  let ?N = "filter (\<lambda>a. \<not> archived_entry a) ps"
  let ?A = "filter archived_entry ps"
  have later: "\<forall>q \<in> set ps. snd p < snd q" using Cons.prems by simp
  have IH: "Array_sort compare_indexed ps = ?N @ ?A" using Cons by simp
  show ?case
  proof (cases "archived_entry p")
    case False
    have "?N @ ?A = [] \<or> compare_indexed p (hd (?N @ ?A)) \<le> 0"
    proof (cases "?N @ ?A")
      case Nil
      then show ?thesis by simp
    next
      case (Cons q qs)
      then have "q \<in> set (?N @ ?A)" by simp
      then have "q \<in> set ps" by auto
      then have "snd p < snd q" using later by simp
      then have "compare_indexed p q \<le> 0" using False
        by (simp add: compare_indexed_cases)
      then show ?thesis using Cons by simp
    qed
    then have "insert_sorted compare_indexed p (?N @ ?A) = p # ?N @ ?A"
      by (rule insert_sorted_front)
    then show ?thesis using False IH by simp
  next
    case True
    have skip: "\<forall>q \<in> set ?N. 0 < compare_indexed p q"
      using True by (simp add: compare_indexed_cases)
    have "?A = [] \<or> compare_indexed p (hd ?A) \<le> 0"
    proof (cases ?A)
      case Nil
      then show ?thesis by simp
    next
      case (Cons q qs)
      then have "q \<in> set ?A" by simp
      then have q: "q \<in> set ps" "archived_entry q" by auto
      then have "snd p < snd q" using later by simp
      then have "compare_indexed p q \<le> 0" using True q
        by (simp add: compare_indexed_cases)
      then show ?thesis using Cons by simp
    qed
    then have "insert_sorted compare_indexed p ?A = p # ?A"
      by (rule insert_sorted_front)
    then have "insert_sorted compare_indexed p (?N @ ?A) = ?N @ p # ?A"
      using skip insert_sorted_skip [where xs = ?N and c = compare_indexed and x = p and ys = ?A]
      by simp
    then show ?thesis using True IH by simp
  qed
qed

lemma zip_upt_increasing: "sorted_wrt (\<lambda>a b. snd a < snd b) (zip ts [0..<length ts])"
proof -
  have "sorted_wrt (<) (map snd (zip ts [0..<length ts]))" by simp
  then show ?thesis by (simp only: sorted_wrt_map)
qed

lemma map_fst_filter_zip:
  "length ts = length ns \<Longrightarrow>
   map fst (filter (\<lambda>a. P (fst a)) (zip ts ns)) = filter P ts"
  by (induction ts ns rule: list_induct2) auto

lemma archived_entry_eq: "archived_entry = (\<lambda>a. isArchivedTeardown (fst a))"
  by (simp add: fun_eq_iff archived_entry_def)

lemma sortTeardowns_partition:
  "sortTeardowns ts = filter (\<lambda>t. \<not> isArchivedTeardown t) ts @ filter isArchivedTeardown ts"
  using map_fst_filter_zip [of ts "[0..<length ts]" isArchivedTeardown]
    map_fst_filter_zip [of ts "[0..<length ts]" "\<lambda>t. \<not> isArchivedTeardown t"]
  by (simp add: sortTeardowns_def Array_sort_indexed [OF zip_upt_increasing] archived_entry_eq)

lemma distinct_Set_add: "distinct st \<Longrightarrow> distinct (Set_add x st)"
  by (simp add: Set_add_def)

lemma set_Set_add: "set (Set_add x st) = insert x (set st)"
  by (auto simp: Set_add_def)

lemma distinct_fold_Set_add: "distinct st \<Longrightarrow> distinct (fold Set_add xs st)"
  by (induction xs arbitrary: st) (simp_all add: distinct_Set_add)

lemma set_fold_Set_add: "set (fold Set_add xs st) = set xs \<union> set st"
  by (induction xs arbitrary: st) (auto simp: set_Set_add)

lemma collect_distinct:
  "distinct st \<Longrightarrow> distinct (fold (\<lambda>td st. fold Set_add (tags_of td) st) tds st)"
  by (induction tds arbitrary: st) (simp_all add: distinct_fold_Set_add)

lemma collect_set:
  "set (fold (\<lambda>td st. fold Set_add (tags_of td) st) tds st) =
   (\<Union>td \<in> set tds. set (tags_of td)) \<union> set st"
  by (induction tds arbitrary: st) (auto simp: set_fold_Set_add)

lemma insert_sorted_cong:
  "\<forall>y \<in> set ys. c x y = c' x y \<Longrightarrow> insert_sorted c x ys = insert_sorted c' x ys"
  by (induction ys) auto

lemma Array_sort_cong:
  "\<forall>x \<in> set xs. \<forall>y \<in> set xs. c x y = c' x y \<Longrightarrow> Array_sort c xs = Array_sort c' xs"
proof (induction xs)
  case Nil
  then show ?case by simp
next
  case (Cons x xs)
  then have "Array_sort c xs = Array_sort c' xs" by simp
  moreover have "insert_sorted c x (Array_sort c' xs) = insert_sorted c' x (Array_sort c' xs)"
    using Cons.prems by (intro insert_sorted_cong) (simp add: set_Array_sort)
  ultimately show ?case by simp
qed

lemma mset_sortTags: "mset (sortTags tgs) = mset tgs"
  by (simp add: sortTags_def mset_Array_sort)

lemma aggregate_eq:
  "aggregateTeardownTags tds = sortTags (fold (\<lambda>td st. fold Set_add (tags_of td) st) tds [])"
  by (simp add: aggregateTeardownTags_def)

lemma distinct_aggregate: "distinct (aggregateTeardownTags tds)"
  using collect_distinct [of "[]" tds] mset_sortTags mset_eq_imp_distinct_iff
  by (metis aggregate_eq distinct.simps(1))

lemma set_aggregate:
  "set (aggregateTeardownTags tds) =
     (\<Union>td \<in> set tds. case tags td of None \<Rightarrow> {} | Some ts \<Rightarrow> set ts)"
proof -
  have "set (aggregateTeardownTags tds) = (\<Union>td \<in> set tds. set (tags_of td))"
    using collect_set [of tds "[]"]
    by (metis aggregate_eq mset_sortTags set_mset_mset sup_bot.right_neutral empty_set)
  also have "\<dots> = (\<Union>td \<in> set tds. case tags td of None \<Rightarrow> {} | Some ts \<Rightarrow> set ts)"
  proof -
    have "set (tags_of td) = (case tags td of None \<Rightarrow> {} | Some ts \<Rightarrow> set ts)" for td
      by (simp add: tags_of_def split: option.splits)
    then show ?thesis by simp
  qed
  finally show ?thesis .
qed

text \<open>
  As long as no tag bears the name of an inherited member, the comparison function is
  the difference of two numbers and the tags come out in the order of the
  specification.
\<close>

lemma compare_tags_rank:
  assumes "TAG_PRIORITY a \<noteq> Inherited" and "TAG_PRIORITY b \<noteq> Inherited"
  shows "compare_tags a b \<le> 0 \<longleftrightarrow> spec_tag_rank a \<le> spec_tag_rank b"
  using assms
  by (auto simp: compare_tags_def tag_priority_def TAG_PRIORITY_def spec_tag_rank_def
      split: if_splits)

lemma tag_priority_number:
  "TAG_PRIORITY t \<noteq> Inherited \<Longrightarrow> \<exists>v. tag_priority t = Some v"
  by (cases "TAG_PRIORITY t") (simp_all add: tag_priority_def)

lemma sorted_sortTags:
  assumes "\<forall>t \<in> set tgs. TAG_PRIORITY t \<noteq> Inherited"
  shows "sorted_wrt (\<lambda>a b. spec_tag_rank a \<le> spec_tag_rank b) (sortTags tgs)"
proof -
  let ?n = "\<lambda>t. case tag_priority t of None \<Rightarrow> 999 | Some v \<Rightarrow> v"
  let ?c = "\<lambda>a b. ?n a - ?n b"
  have agree: "\<forall>a \<in> set tgs. \<forall>b \<in> set tgs. compare_tags a b = ?c a b"
  proof (intro ballI)
    fix a b
    assume "a \<in> set tgs" "b \<in> set tgs"
    then obtain x y where "tag_priority a = Some x" "tag_priority b = Some y"
      using assms tag_priority_number by blast
    then show "compare_tags a b = ?c a b" by (simp add: compare_tags_def)
  qed
  have "sorted_wrt (\<lambda>a b. ?c a b \<le> 0) (Array_sort ?c tgs)"
    by (rule sorted_Array_sort) auto
  then have sorted: "sorted_wrt (\<lambda>a b. ?c a b \<le> 0) (sortTags tgs)"
    using Array_sort_cong [OF agree] by (simp add: sortTags_def)
  have rank: "spec_tag_rank a \<le> spec_tag_rank b"
    if "a \<in> set (sortTags tgs)" "b \<in> set (sortTags tgs)" "?c a b \<le> 0" for a b
  proof -
    have ab: "a \<in> set tgs" "b \<in> set tgs"
      using that by (simp_all add: sortTags_def set_Array_sort)
    then have "compare_tags a b \<le> 0" using agree that(3) by simp
    then show ?thesis using compare_tags_rank [of a b] ab assms by simp
  qed
  show ?thesis
  proof (rule sorted_wrt_mono_rel [OF _ sorted])
    fix a b
    assume "a \<in> set (sortTags tgs)" "b \<in> set (sortTags tgs)" "?c a b \<le> 0"
    then show "spec_tag_rank a \<le> spec_tag_rank b" by (rule rank)
  qed
qed

lemma sorted_aggregate:
  assumes "\<forall>td \<in> set tds. \<forall>t \<in> set (tags_of td). TAG_PRIORITY t \<noteq> Inherited"
  shows "sorted_wrt (\<lambda>a b. spec_tag_rank a \<le> spec_tag_rank b) (aggregateTeardownTags tds)"
proof -
  have "\<forall>t \<in> set (fold (\<lambda>td st. fold Set_add (tags_of td) st) tds []).
          TAG_PRIORITY t \<noteq> Inherited"
    using assms by (auto simp: collect_set)
  then show ?thesis by (simp add: aggregate_eq sorted_sortTags)
qed

lemma sortTeardowns_T1_T2: "sortTeardowns [teardown_T1, teardown_T2] = [teardown_T2, teardown_T1]"
  by (simp add: sortTeardowns_partition isArchivedTeardown_def teardown_T1_def teardown_T2_def)

text \<open>
  C8.  The teardown entries are ordered as the specification says (\<open>sortTeardowns\<close> returns
  the entries that are not archived, then the archived ones, each group in its
  original order), and the aggregated tags are free of duplicates.  The tag order is
  not always the specified one: for a tag named like a member every object
  inherits, \<open>TAG_PRIORITY[a] ?? 999\<close> is that member and not 999, the difference is
  \<open>NaN\<close>, and the tag ties with every other tag instead of sorting last.  A teardown
  tagged \<open>constructor\<close>, \<open>starred\<close> keeps the unknown tag in front of \<open>starred\<close>,
  where the specification's order puts \<open>starred\<close> first.
\<close>

theorem tags_unknown_not_last:
  "tags teardown_T3 = Some [''constructor'', ''starred''] \<and>
   spec_tag_rank ''starred'' < spec_tag_rank ''constructor'' \<and>
   compare_tags ''constructor'' ''starred'' = 0 \<and>
   compare_tags ''starred'' ''constructor'' = 0 \<and>
   sortTags [''constructor'', ''starred''] = [''constructor'', ''starred''] \<and>
   aggregateTeardownTags [teardown_T3] = [''constructor'', ''starred''] \<and>
   aggregateTeardownTags [teardown_T1, teardown_T3] = [''archived'', ''constructor'', ''starred'']"
proof (intro conjI)
  show "tags teardown_T3 = Some [''constructor'', ''starred'']"
    by (simp add: teardown_T3_def)
  show "spec_tag_rank ''starred'' < spec_tag_rank ''constructor''"
    by (simp add: spec_tag_rank_def)
  show "compare_tags ''constructor'' ''starred'' = 0"
    by code_simp
  show "compare_tags ''starred'' ''constructor'' = 0"
    by code_simp
  show "sortTags [''constructor'', ''starred''] = [''constructor'', ''starred'']"
    by code_simp
  show "aggregateTeardownTags [teardown_T3] = [''constructor'', ''starred'']"
    by code_simp
  show "aggregateTeardownTags [teardown_T1, teardown_T3]
      = [''archived'', ''constructor'', ''starred'']"
    by code_simp
qed

text \<open>
  C9.  The result of \<open>sortTeardowns\<close> has the entries of its argument, each as
  often as the argument has it.  Run on a store, the function returns a new array
  holding that result and leaves the argument array, and every other array that was in
  the store, as it was.
\<close>

theorem sortTeardowns_permutation:
  assumes "a < length store" and "store ! a = Entries ts"
  shows "mset (sortTeardowns ts) = mset ts \<and>
         (\<exists>store' r. sortTeardowns_store store a = Some (store', r) \<and>
            store' ! r = Entries (sortTeardowns ts) \<and> r \<noteq> a \<and>
            (\<forall>i < length store. store' ! i = store ! i))"
proof
  have "mset (map fst (Array_sort compare_indexed (zip ts [0..<length ts]))) =
        mset (map fst (zip ts [0..<length ts]))"
    by (simp only: mset_map mset_Array_sort)
  then show "mset (sortTeardowns ts) = mset ts"
    by (simp add: sortTeardowns_def)
  show "\<exists>store' r. sortTeardowns_store store a = Some (store', r) \<and>
            store' ! r = Entries (sortTeardowns ts) \<and> r \<noteq> a \<and>
            (\<forall>i < length store. store' ! i = store ! i)"
    using assms
    by (simp add: sortTeardowns_store_def alloc_def nth_append sortTeardowns_def Let_def)
qed

theorem sortTeardowns_permutation_witness:
  "mset (sortTeardowns [teardown_T1, teardown_T2]) = mset [teardown_T1, teardown_T2] \<and>
   (\<exists>store' r. sortTeardowns_store [Entries [teardown_T1, teardown_T2]] 0 = Some (store', r) \<and>
      store' ! r = Entries (sortTeardowns [teardown_T1, teardown_T2]) \<and> r \<noteq> 0 \<and>
      store' ! 0 = Entries [teardown_T1, teardown_T2])"
  using sortTeardowns_permutation [of 0 "[Entries [teardown_T1, teardown_T2]]" "[teardown_T1, teardown_T2]"]
  by simp

section \<open>The selection\<close>

lemma String_nat_MAX_COMPARE: "String_nat MAX_COMPARE = ''5''"
  by code_simp

text \<open>Below the cap a checked box adds its device and stays checked.\<close>

lemma cmp_change_accepts:
  "length (selectedForCompare ui) < 5 \<Longrightarrow>
   fst (cmp_change sel True ui) = True \<and>
   selectedForCompare (snd (cmp_change sel True ui)) = Set_add sel (selectedForCompare ui)"
  by (simp add: cmp_change_def MAX_COMPARE_def refreshDrawer_def Let_def)

text \<open>
  C3.  When the selection holds five identifiers and the box of a sixth device is
  checked, the listener leaves the selection as it was (five members, the sixth not
  among them), unchecks the box again, and reports the refusal: the live region, when
  the page has one, receives the message, and the drawer, when the page has one, is
  flagged and shows the inline message.  The listener returns normally.
\<close>

theorem selection_cap:
  assumes "length (selectedForCompare ui) = 5" and "distinct (selectedForCompare ui)"
    and "sel \<notin> set (selectedForCompare ui)"
  shows "fst (cmp_change sel True ui) = False \<and>
         selectedForCompare (snd (cmp_change sel True ui)) = selectedForCompare ui \<and>
         length (selectedForCompare (snd (cmp_change sel True ui))) = 5 \<and>
         sel \<notin> set (selectedForCompare (snd (cmp_change sel True ui))) \<and>
         (actionLive ui \<noteq> None \<longrightarrow>
            actionLive (snd (cmp_change sel True ui)) =
              Some ''You can compare up to 5 devices. Deselect one to add another.'') \<and>
         (compareDrawer ui \<noteq> None \<longrightarrow>
            map_option drawer_warn (compareDrawer (snd (cmp_change sel True ui))) = Some True \<and>
            map_option compareMsg (compareDrawer (snd (cmp_change sel True ui))) =
              Some (Some (''You can compare up to 5 devices.'', True)))"
  using assms
  by (auto simp: cmp_change_def MAX_COMPARE_def refreshDrawer_def show_compareMsg_def
      notifyAction_def String_nat_MAX_COMPARE [unfolded MAX_COMPARE_def] Let_def
      split: option.splits)

theorem selection_cap_witness:
  "fst (cmp_change (selId device_F) True full_selection) = False \<and>
   selectedForCompare (snd (cmp_change (selId device_F) True full_selection)) =
     [''A__X'', ''B__Y'', ''C__X'', ''T__'', ''Pixel 7__Google''] \<and>
   actionLive (snd (cmp_change (selId device_F) True full_selection)) =
     Some ''You can compare up to 5 devices. Deselect one to add another.''"
  using selection_cap [of full_selection "selId device_F"]
  by (simp add: full_selection_def selId_def device_A_def device_B_def device_C_def
      device_T_def device_P_def device_F_def)

section \<open>The URL round trip\<close>

lemma params_get_delete:
  "params_get k (params_delete k' ps) = (if k = k' then None else params_get k ps)"
  by (induction ps) (auto simp: params_delete_def)

lemma params_get_set:
  "params_get k (params_set k' v ps) = (if k = k' then Some v else params_get k ps)"
  by (induction ps) (auto simp: params_get_delete)

lemma get_or_empty_set:
  "get_or_empty k (params_set k' v ps) = (if k = k' then v else get_or_empty k ps)"
  by (simp add: get_or_empty_def params_get_set)

text \<open>Dropping a parameter whose value is empty does not change what \<open>get(k) || ''\<close> reads.\<close>

lemma get_or_empty_clean: "get_or_empty k (clean_empty ps k') = get_or_empty k ps"
  by (auto simp: clean_empty_def get_or_empty_def params_get_delete)

lemma params_get_clean:
  "v \<noteq> [] \<Longrightarrow> params_get k (clean_empty ps k') = Some v \<longleftrightarrow> params_get k ps = Some v"
  by (auto simp: clean_empty_def get_or_empty_def params_get_delete split: option.splits)

lemma split_no_sep: "sep \<notin> set s \<Longrightarrow> split sep s = [s]"
  by (induction s) auto

lemma split_at_sep: "sep \<notin> set k \<Longrightarrow> split sep (k @ sep # d) = k # split sep d"
  by (induction k) auto

text \<open>What \<open>queryToState\<close> reads from the query that \<open>stateToQuery\<close> wrote.\<close>

lemma written_q: "get_or_empty ''q'' (location_search (stateToQuery s)) = searchInput s"
  by (simp add: stateToQuery_def Let_def get_or_empty_clean get_or_empty_set)

lemma written_brand: "get_or_empty ''brand'' (location_search (stateToQuery s)) = brandFilter s"
  by (simp add: stateToQuery_def Let_def get_or_empty_clean get_or_empty_set)

lemma written_score:
  "get_or_empty ''score'' (location_search (stateToQuery s)) = scoreFilter_value s"
  by (simp add: stateToQuery_def Let_def get_or_empty_clean get_or_empty_set)

lemma written_sort:
  "get_or_empty ''sort'' (location_search (stateToQuery s)) =
     currentSort_key s @ CHR '':'' # currentSort_direction s"
  by (simp add: stateToQuery_def Let_def get_or_empty_clean get_or_empty_set)

lemma written_noscore:
  "params_get ''noscore'' (location_search (stateToQuery s)) = Some ''1'' \<longleftrightarrow>
     includeNoScore_checked s"
  by (simp add: stateToQuery_def Let_def params_get_clean params_get_set)

lemma round_trip:
  assumes "currentSort_key s \<noteq> []" and "CHR '':'' \<notin> set (currentSort_key s)"
    and "currentSort_direction s = ''asc'' \<or> currentSort_direction s = ''desc''"
    and "scoreFilter p0 = [] \<or> scoreFilter_value p0 = scoreFilter_value s"
    and "brandFilter s = [] \<or> brandFilter s \<in> set (brandOptions p0)"
  shows "configuration (queryToState (p0\<lparr>location_search := location_search (stateToQuery s)\<rparr>))
         = configuration s"
proof -
  have dir: "split (CHR '':'') (currentSort_direction s) = [currentSort_direction s]"
    using assms(3) by (auto simp: split_no_sep)
  have parts: "split (CHR '':'') (currentSort_key s @ CHR '':'' # currentSort_direction s)
      = [currentSort_key s, currentSort_direction s]"
    using assms(2) by (simp add: split_at_sep dir)
  have brand: "select_value (brandOptions p0) (brandFilter s) = brandFilter s"
    using assms(5) by (auto simp: select_value_def)
  show ?thesis
    using assms(1,3,4)
    by (auto simp: queryToState_def configuration_def Let_def written_q written_brand
        written_score written_sort written_noscore parts brand scoreFilter_value_def
        includeNoScore_checked_def split: list.splits)
qed

lemma stateToQuery_location:
  "stateToQuery s = s\<lparr>location_search := location_search (stateToQuery s)\<rparr>"
  by (simp add: stateToQuery_def Let_def)

lemma round_trip_in_place:
  assumes "currentSort_key s \<noteq> []" and "CHR '':'' \<notin> set (currentSort_key s)"
    and "currentSort_direction s = ''asc'' \<or> currentSort_direction s = ''desc''"
    and "brandFilter s = [] \<or> brandFilter s \<in> set (brandOptions s)"
  shows "configuration (queryToState (stateToQuery s)) = configuration s"
proof -
  have "configuration (queryToState (s\<lparr>location_search := location_search (stateToQuery s)\<rparr>))
        = configuration s"
    using assms(1-3) by (rule round_trip) (simp_all add: assms(4))
  then show ?thesis using stateToQuery_location [of s] by simp
qed

text \<open>
  Apart from the brand, the configuration always comes back: on any page without a
  hidden score input, \<open>queryToState\<close> restores search text, sort key, direction,
  score filter and include-unscored flag from the query \<open>stateToQuery\<close> wrote.  The
  brand comes back exactly when the select offers it.
\<close>

lemma round_trip_but_brand:
  assumes "currentSort_key s \<noteq> []" and "CHR '':'' \<notin> set (currentSort_key s)"
    and "currentSort_direction s = ''asc'' \<or> currentSort_direction s = ''desc''"
    and "scoreFilter p0 = []"
  shows "configuration (queryToState (p0\<lparr>location_search := location_search (stateToQuery s)\<rparr>))
         = (searchInput s, select_value (brandOptions p0) (brandFilter s), currentSort_key s,
            currentSort_direction s, scoreFilter_value s, includeNoScore_checked s)"
proof -
  have dir: "split (CHR '':'') (currentSort_direction s) = [currentSort_direction s]"
    using assms(3) by (auto simp: split_no_sep)
  have parts: "split (CHR '':'') (currentSort_key s @ CHR '':'' # currentSort_direction s)
      = [currentSort_key s, currentSort_direction s]"
    using assms(2) by (simp add: split_at_sep dir)
  show ?thesis
    using assms(1,3,4)
    by (auto simp: queryToState_def configuration_def Let_def written_q written_brand
        written_score written_sort written_noscore parts scoreFilter_value_def
        includeNoScore_checked_def split: list.splits)
qed

lemma brand_not_offered:
  assumes "currentSort_key s \<noteq> []" and "CHR '':'' \<notin> set (currentSort_key s)"
    and "currentSort_direction s = ''asc'' \<or> currentSort_direction s = ''desc''"
    and "scoreFilter p0 = []"
    and "brandFilter s \<noteq> []" and "brandFilter s \<notin> set (brandOptions p0)"
  shows "configuration (queryToState (p0\<lparr>location_search := location_search (stateToQuery s)\<rparr>))
         \<noteq> configuration s"
  using round_trip_but_brand [OF assms(1-4)] assms(5,6)
  by (simp add: configuration_def select_value_def)

text \<open>\<open>populateBrandFilter\<close> leaves the select on the entry for all manufacturers.\<close>

lemma populateBrandFilter_resets: "brandFilter (populateBrandFilter devs p) = []"
  by (simp add: populateBrandFilter_def Let_def)

text \<open>
  C2.  The round trip does not reproduce the brand where the program performs it.
  \<open>queryToState\<close> runs once, at start-up, before \<open>loadData\<close> has called
  \<open>populateBrandFilter\<close>: the brand select does not offer the brand of the query
  yet, so assigning it leaves the select on the empty value; and
  \<open>populateBrandFilter\<close> rewrites the select afterwards in any case.  For the state
  of the specification's example (search "pixel", brand "Google", score descending,
  score 7, unscored included) the query written is
  \<open>q=pixel&brand=Google&sort=repairability_score:desc&score=7&noscore=1\<close>, and
  reading it at start-up gives the same configuration except for the brand, which is
  empty, both before and after the select has been filled.
\<close>

theorem url_round_trip_loses_brand:
  "configuration example_state
     = (''pixel'', ''Google'', ''repairability_score'', ''desc'', ''7'', True) \<and>
   location_search (stateToQuery example_state)
     = [(''q'', ''pixel''), (''brand'', ''Google''), (''sort'', ''repairability_score:desc''),
        (''score'', ''7''), (''noscore'', ''1'')] \<and>
   configuration
     (queryToState (initial_page\<lparr>location_search := location_search (stateToQuery example_state)\<rparr>))
     = (''pixel'', [], ''repairability_score'', ''desc'', ''7'', True) \<and>
   configuration
     (populateBrandFilter [device_A, device_P]
        (queryToState
           (initial_page\<lparr>location_search := location_search (stateToQuery example_state)\<rparr>)))
     = (''pixel'', [], ''repairability_score'', ''desc'', ''7'', True) \<and>
   configuration
     (populateBrandFilter [device_A, device_P]
        (queryToState
           (listed_page\<lparr>location_search := location_search (stateToQuery example_state)\<rparr>)))
     = (''pixel'', [], ''repairability_score'', ''desc'', ''7'', True)"
proof (intro conjI)
  show "configuration example_state
     = (''pixel'', ''Google'', ''repairability_score'', ''desc'', ''7'', True)"
    by (simp add: configuration_def example_state_def scoreFilter_value_def
        includeNoScore_checked_def)
  show "location_search (stateToQuery example_state)
     = [(''q'', ''pixel''), (''brand'', ''Google''), (''sort'', ''repairability_score:desc''),
        (''score'', ''7''), (''noscore'', ''1'')]"
    by code_simp
  show "configuration
     (queryToState (initial_page\<lparr>location_search := location_search (stateToQuery example_state)\<rparr>))
     = (''pixel'', [], ''repairability_score'', ''desc'', ''7'', True)"
    by code_simp
  show "configuration
     (populateBrandFilter [device_A, device_P]
        (queryToState
           (initial_page\<lparr>location_search := location_search (stateToQuery example_state)\<rparr>)))
     = (''pixel'', [], ''repairability_score'', ''desc'', ''7'', True)"
    by code_simp
  show "configuration
     (populateBrandFilter [device_A, device_P]
        (queryToState
           (listed_page\<lparr>location_search := location_search (stateToQuery example_state)\<rparr>)))
     = (''pixel'', [], ''repairability_score'', ''desc'', ''7'', True)"
    by code_simp
qed

end
